theory Spec2Isabelle
  imports Main "HOL-Library.AList"
begin

section \<open>The session store of nv/session.py\<close>

text \<open>
  The module keeps three pieces of process-wide state: the dictionary \<^verbatim>\<open>_session\<close>, the
  \<^verbatim>\<open>defaultdict(dict)\<close> \<^verbatim>\<open>_views\<close>, and (imported from the history module) the dictionary
  \<^verbatim>\<open>_storage\<close>. It reads and writes one durable file. The functions below thread a record
  of that state; an exception that leaves a function is the first component of its result.

  Conventions of the embedding:
  \<^item> a Python \<^verbatim>\<open>str\<close> is a \<open>string\<close>, each \<open>char\<close> standing for the code point of the same
    number (the code points below 256);
  \<^item> a Python \<^verbatim>\<open>dict\<close> is an association list in insertion order; \<^verbatim>\<open>d[k] = v\<close> is
    \<open>AList.update\<close> (an existing key keeps its place, a new key goes last);
  \<^item> Python values are the values the JSON codec produces (\<^verbatim>\<open>None\<close>, \<^verbatim>\<open>bool\<close>, \<^verbatim>\<open>int\<close>,
    \<^verbatim>\<open>str\<close>, \<^verbatim>\<open>list\<close>, \<^verbatim>\<open>dict\<close> keyed by \<^verbatim>\<open>int\<close> or \<^verbatim>\<open>str\<close>), tuples, which
    \<^verbatim>\<open>json.dumps\<close> writes as arrays, and \<open>PObj\<close>, for any object \<^verbatim>\<open>json.dumps\<close>
    rejects; floating point numbers and dictionary keys that are neither \<^verbatim>\<open>int\<close> nor
    \<^verbatim>\<open>str\<close> (\<^verbatim>\<open>bool\<close>, \<^verbatim>\<open>None\<close>, \<^verbatim>\<open>float\<close>) are left out;
  \<^item> the text of the durable file is kept as what \<^verbatim>\<open>str.strip\<close> and the parser of
    \<^verbatim>\<open>json.loads\<close> make of it: blank, not JSON, or the JSON document it denotes. The
    object hook, which is code of the module, runs on that document. The file is opened
    with \<^verbatim>\<open>encoding='utf=8'\<close>, a name the codec registry resolves to UTF-8, and with
    \<^verbatim>\<open>errors='replace'\<close>, so reading never fails on the bytes;
  \<^item> the path of the file (\<^verbatim>\<open>_session_file\<close>, \<^verbatim>\<open>get_packages_path\<close>) is not modelled:
    there is one durable file.
\<close>

subsection \<open>Exceptions\<close>

datatype exn =
    FileNotFoundError
  | OSError
  | JSONDecodeError
  | ValueError
  | AttributeError
  | TypeError
  | KeyError

subsection \<open>Strings: \<^verbatim>\<open>str.isdigit\<close>, \<^verbatim>\<open>int(str)\<close>, \<^verbatim>\<open>str(int)\<close>\<close>

definition ord :: "char \<Rightarrow> nat" where
  "ord c = of_char c"

definition is_decimal :: "char \<Rightarrow> bool" where
  "is_decimal c = (48 \<le> ord c \<and> ord c \<le> 57)"

text \<open>
  \<^verbatim>\<open>str.isdigit\<close> accepts every character with the Unicode property Digit: below 256 these
  are the ten decimal digits and the superscripts two, three and one (178, 179, 185).
\<close>

definition isdigit_chr :: "char \<Rightarrow> bool" where
  "isdigit_chr c = (is_decimal c \<or> ord c = 178 \<or> ord c = 179 \<or> ord c = 185)"

definition isdigit :: "string \<Rightarrow> bool" where
  "isdigit s = (s \<noteq> [] \<and> list_all isdigit_chr s)"

definition digit_val :: "char \<Rightarrow> nat" where
  "digit_val c = ord c - 48"

definition digits_val :: "string \<Rightarrow> nat" where
  "digits_val s = foldl (\<lambda>a c. 10 * a + digit_val c) 0 s"

text \<open>
  \<^verbatim>\<open>int(s)\<close> in base ten: optional white space, an optional sign, decimal digits that
  may be separated by single underscores, optional white space. No bound is put on the
  number of digits. The white space \<^verbatim>\<open>int\<close> skips around a literal: tab to carriage return, space, and the
  two white space characters above 126 (133, 160).
\<close>

definition int_space :: "char \<Rightarrow> bool" where
  "int_space c = ((9 \<le> ord c \<and> ord c \<le> 13) \<or> ord c = 32 \<or> ord c = 133 \<or> ord c = 160)"

text \<open>
  The digits of a literal, underscores removed: a decimal digit first and last, and
  never two underscores in a row.
\<close>

fun int_digits :: "string \<Rightarrow> string option" where
  "int_digits [] = None"
| "int_digits [c] = (if is_decimal c then Some [c] else None)"
| "int_digits (c # d # cs) =
     (if \<not> is_decimal c then None
      else if d = CHR ''_'' then map_option (Cons c) (int_digits cs)
      else map_option (Cons c) (int_digits (d # cs)))"

definition int_unsigned :: "string \<Rightarrow> exn + int" where
  "int_unsigned s =
     (case int_digits (rev (dropWhile int_space (rev s))) of
        None \<Rightarrow> Inl ValueError
      | Some ds \<Rightarrow> Inr (int (digits_val ds)))"

definition py_int :: "string \<Rightarrow> exn + int" where
  "py_int s =
     (case dropWhile int_space s of
        [] \<Rightarrow> Inl ValueError
      | c # cs \<Rightarrow>
          if c = CHR ''-'' then map_sum id uminus (int_unsigned cs)
          else if c = CHR ''+'' then int_unsigned cs
          else int_unsigned (c # cs))"

definition digit_chr :: "nat \<Rightarrow> char" where
  "digit_chr d = ''0123456789'' ! d"

fun str_nat :: "nat \<Rightarrow> string" where
  "str_nat n = (if n < 10 then [digit_chr n] else str_nat (n div 10) @ [digit_chr (n mod 10)])"

declare str_nat.simps [simp del]

definition py_str :: "int \<Rightarrow> string" where
  "py_str i = (if i < 0 then CHR ''-'' # str_nat (nat (- i)) else str_nat (nat i))"

subsection \<open>Values\<close>

datatype json =
    JNull
  | JBool bool
  | JNum int
  | JStr string
  | JArr "json list"
  | JObj "(string \<times> json) list"

datatype pykey = KInt int | KStr string

datatype pyval =
    PNone
  | PBool bool
  | PInt int
  | PStr string
  | PList "pyval list"
  | PTuple "pyval list"
  | PDict "(pykey \<times> pyval) list"
  | PObj

type_synonym pydict = "(pykey \<times> pyval) list"

definition truthy :: "pyval \<Rightarrow> bool" where
  "truthy v =
     (case v of
        PNone \<Rightarrow> False
      | PBool b \<Rightarrow> b
      | PInt i \<Rightarrow> i \<noteq> 0
      | PStr s \<Rightarrow> s \<noteq> []
      | PList xs \<Rightarrow> xs \<noteq> []
      | PTuple xs \<Rightarrow> xs \<noteq> []
      | PDict d \<Rightarrow> d \<noteq> []
      | PObj \<Rightarrow> True)"

text \<open>\<^verbatim>\<open>d[k]\<close> and \<^verbatim>\<open>del d[k]\<close> on a plain dictionary raise KeyError on a missing key.\<close>

definition getitem :: "('k \<times> 'v) list \<Rightarrow> 'k \<Rightarrow> exn + 'v" where
  "getitem d k = (case map_of d k of None \<Rightarrow> Inl KeyError | Some v \<Rightarrow> Inr v)"

definition delitem :: "('k \<times> 'v) list \<Rightarrow> 'k \<Rightarrow> exn + ('k \<times> 'v) list" where
  "delitem d k = (if k \<in> fst ` set d then Inr (AList.delete k d) else Inl KeyError)"

text \<open>
  \<^verbatim>\<open>d[k]\<close> on a \<^verbatim>\<open>defaultdict(dict)\<close>: a missing key is first given a fresh empty
  dictionary, which is stored and returned.
\<close>

definition default_getitem ::
  "('k \<times> ('n \<times> 'v) list) list \<Rightarrow> 'k \<Rightarrow> ('n \<times> 'v) list \<times> ('k \<times> ('n \<times> 'v) list) list" where
  "default_getitem d k =
     (case map_of d k of
        None \<Rightarrow> ([], AList.update k [] d)
      | Some e \<Rightarrow> (e, d))"

subsection \<open>The JSON codec\<close>

text \<open>
  \<^verbatim>\<open>json.dumps\<close>: a list and a tuple are both written as an array, an integer key is
  written as its decimal string, a string key as it is; an object that is not
  serialisable raises TypeError.
\<close>

fun key_str :: "pykey \<Rightarrow> string" where
  "key_str (KInt i) = py_str i"
| "key_str (KStr s) = s"

fun dumps :: "pyval \<Rightarrow> exn + json"
  and dumps_list :: "pyval list \<Rightarrow> exn + json list"
  and dumps_items :: "pydict \<Rightarrow> exn + (string \<times> json) list" where
  "dumps PNone = Inr JNull"
| "dumps (PBool b) = Inr (JBool b)"
| "dumps (PInt i) = Inr (JNum i)"
| "dumps (PStr s) = Inr (JStr s)"
| "dumps (PList xs) = map_sum id JArr (dumps_list xs)"
| "dumps (PTuple xs) = map_sum id JArr (dumps_list xs)"
| "dumps (PDict d) = map_sum id JObj (dumps_items d)"
| "dumps PObj = Inl TypeError"
| "dumps_list [] = Inr []"
| "dumps_list (x # xs) =
     (case dumps x of
        Inl e \<Rightarrow> Inl e
      | Inr j \<Rightarrow> map_sum id (Cons j) (dumps_list xs))"
| "dumps_items [] = Inr []"
| "dumps_items ((k, v) # d) =
     (case dumps v of
        Inl e \<Rightarrow> Inl e
      | Inr j \<Rightarrow> map_sum id (Cons (key_str k, j)) (dumps_items d))"

text \<open>
  \<^verbatim>\<open>_json_object_hook_dict_str_key_to_int\<close>. The dictionary comprehension walks the
  items in order and stores each under its new key, so a later item replaces an earlier
  one with the same new key. \<^verbatim>\<open>k.isdigit()\<close> on an integer key raises AttributeError.
\<close>

fun str_key_to_int :: "pydict \<Rightarrow> pydict \<Rightarrow> exn + pydict" where
  "str_key_to_int [] acc = Inr acc"
| "str_key_to_int ((KInt i, v) # d) acc = Inl AttributeError"
| "str_key_to_int ((KStr k, v) # d) acc =
     (if isdigit k then
        (case py_int k of
           Inl e \<Rightarrow> Inl e
         | Inr i \<Rightarrow> str_key_to_int d (AList.update (KInt i) v acc))
      else str_key_to_int d (AList.update (KStr k) v acc))"

fun json_object_hook_dict_str_key_to_int :: "pyval \<Rightarrow> exn + pyval" where
  "json_object_hook_dict_str_key_to_int (PDict d) = map_sum id PDict (str_key_to_int d [])"
| "json_object_hook_dict_str_key_to_int x = Inr x"

text \<open>
  \<^verbatim>\<open>json.loads(content, object_hook=...)\<close> on a parsed document: the decoder builds each
  object's dictionary from its pairs (\<^verbatim>\<open>dict(pairs)\<close>, a repeated key keeping its last
  value) once the members are decoded, and replaces it by what the hook returns.
\<close>

definition dict_of_pairs :: "(string \<times> pyval) list \<Rightarrow> pydict" where
  "dict_of_pairs ps = foldl (\<lambda>d (k, v). AList.update (KStr k) v d) [] ps"

fun loads :: "json \<Rightarrow> exn + pyval"
  and loads_list :: "json list \<Rightarrow> exn + pyval list"
  and loads_pairs :: "(string \<times> json) list \<Rightarrow> exn + (string \<times> pyval) list" where
  "loads JNull = Inr PNone"
| "loads (JBool b) = Inr (PBool b)"
| "loads (JNum i) = Inr (PInt i)"
| "loads (JStr s) = Inr (PStr s)"
| "loads (JArr js) = map_sum id PList (loads_list js)"
| "loads (JObj ms) =
     (case loads_pairs ms of
        Inl e \<Rightarrow> Inl e
      | Inr ps \<Rightarrow> json_object_hook_dict_str_key_to_int (PDict (dict_of_pairs ps)))"
| "loads_list [] = Inr []"
| "loads_list (j # js) =
     (case loads j of
        Inl e \<Rightarrow> Inl e
      | Inr v \<Rightarrow> map_sum id (Cons v) (loads_list js))"
| "loads_pairs [] = Inr []"
| "loads_pairs ((k, j) # ms) =
     (case loads j of
        Inl e \<Rightarrow> Inl e
      | Inr v \<Rightarrow> map_sum id (Cons (k, v)) (loads_pairs ms))"

subsection \<open>The state of the module and the durable file\<close>

datatype content = Blank | Garbage | Document json

text \<open>
  The durable file: absent, present but refusing \<^verbatim>\<open>open\<close> (OSError), or holding a text.
\<close>

datatype durable = Absent | Denied | Stored content

record world =
  session :: pydict
  views :: "(int \<times> (string \<times> pyval) list) list"
  storage :: "(int \<times> pyval) list"
  disk :: durable
  writes :: nat
  traces :: "exn list"

text \<open>
  \<open>session\<close> is \<^verbatim>\<open>_session\<close>, \<open>views\<close> is \<^verbatim>\<open>_views\<close> keyed by \<^verbatim>\<open>view.id()\<close>, \<open>storage\<close> is
  the history module's \<^verbatim>\<open>_storage\<close>. \<open>writes\<close> counts the times the file was written,
  \<open>traces\<close> lists the exceptions handed to \<^verbatim>\<open>traceback.print_exc\<close>. The build number
  \<^verbatim>\<open>_BUILD_VERSION\<close> is fixed at import and is a parameter \<open>build\<close> of the functions
  that read it.
\<close>

subsection \<open>\<^verbatim>\<open>save_session\<close>, \<^verbatim>\<open>session_on_exit\<close>, \<^verbatim>\<open>session_on_close\<close>\<close>

definition save_session :: "world \<Rightarrow> exn option \<times> world" where
  "save_session w =
     (case dumps (PDict (session w)) of
        Inl e \<Rightarrow> (Some e, w)
      | Inr content \<Rightarrow>
          (case disk w of
             Denied \<Rightarrow> (Some OSError, w)
           | _ \<Rightarrow> (None, w\<lparr>disk := Stored (Document content), writes := Suc (writes w)\<rparr>)))"

definition session_on_exit :: "int \<Rightarrow> world \<Rightarrow> exn option \<times> world" where
  "session_on_exit build w = (if build \<ge> 4081 then save_session w else (None, w))"

definition session_on_close :: "int \<Rightarrow> world \<Rightarrow> exn option \<times> world" where
  "session_on_close view_id w =
     (case delitem (views w) view_id of
        Inl e \<Rightarrow> (if e = KeyError then (None, w) else (Some e, w))
      | Inr vs \<Rightarrow> (None, w\<lparr>views := vs\<rparr>))"

subsection \<open>\<^verbatim>\<open>load_session\<close>\<close>

definition accept_keys :: "pykey list" where
  "accept_keys =
     [KStr ''history'',
      KStr ''ex_substitute_last_pattern'',
      KStr ''ex_substitute_last_replacement'',
      KStr ''last_used_register_name'',
      KStr ''macros'']"

fun int_of_key :: "pykey \<Rightarrow> exn + int" where
  "int_of_key (KInt i) = Inr i"
| "int_of_key (KStr s) = py_int s"

text \<open>The inner loop: \<^verbatim>\<open>for _k, _v in v.items(): _storage[int(_k)] = _v\<close>.\<close>

fun load_history :: "pydict \<Rightarrow> (int \<times> pyval) list \<Rightarrow> exn option \<times> (int \<times> pyval) list" where
  "load_history [] st = (None, st)"
| "load_history ((k, v) # d) st =
     (case int_of_key k of
        Inl e \<Rightarrow> (Some e, st)
      | Inr i \<Rightarrow> load_history d (AList.update i v st))"

text \<open>The outer loop over \<^verbatim>\<open>session.items()\<close>.\<close>

fun load_items :: "pydict \<Rightarrow> world \<Rightarrow> exn option \<times> world" where
  "load_items [] w = (None, w)"
| "load_items ((k, v) # d) w =
     (if k \<notin> set accept_keys then load_items d w
      else if k = KStr ''history'' then
        (case v of
           PDict h \<Rightarrow>
             (case load_history h [] of
                (Some e, st) \<Rightarrow> (Some e, w\<lparr>storage := st\<rparr>)
              | (None, st) \<Rightarrow> load_items d (w\<lparr>storage := st\<rparr>))
         | _ \<Rightarrow> (Some AttributeError, w\<lparr>storage := []\<rparr>))
      else load_items d (w\<lparr>session := AList.update k v (session w)\<rparr>))"

text \<open>The body of the \<^verbatim>\<open>try\<close> block.\<close>

definition load_body :: "world \<Rightarrow> exn option \<times> world" where
  "load_body w =
     (case disk w of
        Absent \<Rightarrow> (Some FileNotFoundError, w)
      | Denied \<Rightarrow> (Some OSError, w)
      | Stored Blank \<Rightarrow> (None, w)
      | Stored Garbage \<Rightarrow> (Some JSONDecodeError, w)
      | Stored (Document j) \<Rightarrow>
          (case loads j of
             Inl e \<Rightarrow> (Some e, w)
           | Inr s \<Rightarrow>
               if truthy s then
                 (case s of
                    PDict items \<Rightarrow> load_items items w
                  | _ \<Rightarrow> (Some AttributeError, w))
               else (None, w)))"

definition load_session :: "world \<Rightarrow> exn option \<times> world" where
  "load_session w =
     (case load_body w of
        (None, w') \<Rightarrow> (None, w')
      | (Some e, w') \<Rightarrow>
          if e = FileNotFoundError then (None, w')
          else (None, w'\<lparr>traces := traces w' @ [e]\<rparr>))"

subsection \<open>Accessors\<close>

definition get_session_value :: "string \<Rightarrow> pyval \<Rightarrow> world \<Rightarrow> pyval" where
  "get_session_value name dflt w =
     (case getitem (session w) (KStr name) of
        Inl e \<Rightarrow> dflt
      | Inr v \<Rightarrow> v)"

definition set_session_value ::
  "int \<Rightarrow> string \<Rightarrow> pyval \<Rightarrow> bool \<Rightarrow> world \<Rightarrow> exn option \<times> world" where
  "set_session_value build name v persist w =
     (let w1 = w\<lparr>session := AList.update (KStr name) v (session w)\<rparr>
      in if persist \<and> build < 4081 then save_session w1 else (None, w1))"

definition get_session_view_value ::
  "int \<Rightarrow> string \<Rightarrow> pyval \<Rightarrow> world \<Rightarrow> pyval \<times> world" where
  "get_session_view_value view_id name dflt w =
     (case default_getitem (views w) view_id of
        (entry, vs) \<Rightarrow>
          (case getitem entry name of
             Inl e \<Rightarrow> (dflt, w\<lparr>views := vs\<rparr>)
           | Inr v \<Rightarrow> (v, w\<lparr>views := vs\<rparr>)))"

definition set_session_view_value :: "int \<Rightarrow> string \<Rightarrow> pyval \<Rightarrow> world \<Rightarrow> world" where
  "set_session_view_value view_id name v w =
     (case default_getitem (views w) view_id of
        (entry, vs) \<Rightarrow> w\<lparr>views := AList.update view_id (AList.update name v entry) vs\<rparr>)"

subsection \<open>States used in the examples\<close>

text \<open>The state right after import, with no durable file yet.\<close>

definition fresh :: world where
  "fresh = \<lparr>session = [], views = [], storage = [], disk = Absent, writes = 0, traces = []\<rparr>"

text \<open>
  A running editor: one recorded macro, one name outside the allow-list, and a durable
  file left by an earlier run.
\<close>

definition busy :: world where
  "busy = fresh\<lparr>session := [(KStr ''macros'', PDict [(KStr ''a'', PList [PStr ''dw''])]),
                             (KStr ''bogus'', PInt 1)],
               disk := Stored (Document (JObj [(''stale'', JNull)]))\<rparr>"

subsection \<open>What the specification says of the per-document store\<close>

text \<open>The value a document's entry binds to a name, if the document has an entry.\<close>

definition bound :: "(int \<times> (string \<times> pyval) list) list \<Rightarrow> int \<Rightarrow> string \<Rightarrow> pyval option" where
  "bound vs d n = (case map_of vs d of None \<Rightarrow> None | Some e \<Rightarrow> map_of e n)"

subsection \<open>What the specification says of loading\<close>

text \<open>
  The definitions of this subsection follow the words of the specification and use
  nothing of the code's model. \<open>copied_names\<close> are the four names of the allow-list that
  go to the GlobalStore. \<open>index_of_text\<close> reads a stringified integer index: decimal
  digits, with a minus sign in front for a negative index; \<open>spec_index\<close> is the integer
  of a decoded sub-key (an integer already when the hook has promoted it).
  \<open>history_indexed\<close> says that the \<^verbatim>\<open>history\<close> field of a decoded record, if it has one,
  is a mapping from such indices. \<open>index_entries\<close> are the entries of that mapping under
  their integers, in order. \<open>store_after\<close> and \<open>history_after\<close> are the GlobalStore and
  the history storage the specification describes after loading: each of the four
  names copied, every other name discarded; the storage cleared and repopulated entry
  by entry (a later entry wins), and untouched when the record has no \<^verbatim>\<open>history\<close>.
\<close>

definition copied_names :: "pykey list" where
  "copied_names =
     [KStr ''ex_substitute_last_pattern'',
      KStr ''ex_substitute_last_replacement'',
      KStr ''last_used_register_name'',
      KStr ''macros'']"

definition digit_of :: "char \<Rightarrow> nat option" where
  "digit_of c =
     map_of [(CHR ''0'', 0), (CHR ''1'', 1), (CHR ''2'', 2), (CHR ''3'', 3), (CHR ''4'', 4),
             (CHR ''5'', 5), (CHR ''6'', 6), (CHR ''7'', 7), (CHR ''8'', 8), (CHR ''9'', 9)] c"

fun decimal_of :: "nat \<Rightarrow> string \<Rightarrow> nat option" where
  "decimal_of a [] = Some a"
| "decimal_of a (c # cs) =
     (case digit_of c of
        None \<Rightarrow> None
      | Some d \<Rightarrow> decimal_of (10 * a + d) cs)"

definition index_of_text :: "string \<Rightarrow> int option" where
  "index_of_text s =
     (case s of
        [] \<Rightarrow> None
      | c # cs \<Rightarrow>
          if c = CHR ''-'' then
            (if cs = [] then None else map_option (\<lambda>n. - int n) (decimal_of 0 cs))
          else map_option int (decimal_of 0 s))"

fun spec_index :: "pykey \<Rightarrow> int option" where
  "spec_index (KInt i) = Some i"
| "spec_index (KStr s) = index_of_text s"

definition index_entries :: "pydict \<Rightarrow> (int \<times> pyval) list" where
  "index_entries h = List.map_filter (\<lambda>(k, x). map_option (\<lambda>i. (i, x)) (spec_index k)) h"

definition history_indexed :: "pydict \<Rightarrow> bool" where
  "history_indexed items =
     (case map_of items (KStr ''history'') of
        None \<Rightarrow> True
      | Some v \<Rightarrow>
          (case v of
             PDict h \<Rightarrow> list_all (\<lambda>(k, x). spec_index k \<noteq> None) h
           | _ \<Rightarrow> False))"

definition store_after :: "pydict \<Rightarrow> pydict \<Rightarrow> pykey \<Rightarrow> pyval option" where
  "store_after items s k =
     (if k \<in> set copied_names then
        (case map_of items k of None \<Rightarrow> map_of s k | Some v \<Rightarrow> Some v)
      else map_of s k)"

definition history_after :: "pydict \<Rightarrow> (int \<times> pyval) list \<Rightarrow> int \<Rightarrow> pyval option" where
  "history_after items st =
     (case map_of items (KStr ''history'') of
        None \<Rightarrow> map_of st
      | Some v \<Rightarrow>
          (case v of
             PDict h \<Rightarrow> map_of (rev (index_entries h))
           | _ \<Rightarrow> Map.empty))"

text \<open>A record with a name outside the allow-list, as the durable file may hold it.\<close>

definition record_example :: json where
  "record_example =
     JObj [(''bogus'', JNum 1),
           (''macros'', JObj []),
           (''history'', JObj [(''3'', JStr ''x''), (''12'', JStr ''y''), (''-1'', JStr ''z'')]),
           (''last_used_register_name'', JStr ''a'')]"

subsection \<open>Values that survive the codec\<close>

text \<open>
  A value is stable when it is built only from \<^verbatim>\<open>None\<close>, booleans, integers, strings,
  lists and dictionaries (no tuple, no object \<^verbatim>\<open>json.dumps\<close> rejects) and every
  dictionary in it, at every depth, has distinct keys that are non-negative integers
  or strings \<^verbatim>\<open>str.isdigit\<close> rejects. \<open>history_ints\<close> says that the \<^verbatim>\<open>history\<close> value of a store, if there is one,
  is a dictionary keyed by integers. \<open>spec_reload store w\<close> says that \<open>w\<close> holds each name
  of \<open>store\<close> where the specification routes it: every name but \<^verbatim>\<open>history\<close> in the
  GlobalStore with its value, and each entry of \<^verbatim>\<open>history\<close> in the history storage under
  its integer.
\<close>

fun stable_key :: "pykey \<Rightarrow> bool" where
  "stable_key (KInt i) = (0 \<le> i)"
| "stable_key (KStr s) = (\<not> isdigit s)"

fun stable :: "pyval \<Rightarrow> bool"
  and stable_list :: "pyval list \<Rightarrow> bool"
  and stable_items :: "pydict \<Rightarrow> bool" where
  "stable PNone = True"
| "stable (PBool b) = True"
| "stable (PInt i) = True"
| "stable (PStr s) = True"
| "stable (PList xs) = stable_list xs"
| "stable (PTuple xs) = False"
| "stable (PDict d) = (distinct (map fst d) \<and> stable_items d)"
| "stable PObj = False"
| "stable_list [] = True"
| "stable_list (x # xs) = (stable x \<and> stable_list xs)"
| "stable_items [] = True"
| "stable_items ((k, v) # d) = (stable_key k \<and> stable v \<and> stable_items d)"

definition history_ints :: "pydict \<Rightarrow> bool" where
  "history_ints store =
     (case map_of store (KStr ''history'') of
        None \<Rightarrow> True
      | Some v \<Rightarrow>
          (case v of
             PDict h \<Rightarrow> list_all (\<lambda>(k, x). case k of KInt i \<Rightarrow> True | KStr s \<Rightarrow> False) h
           | _ \<Rightarrow> False))"

definition spec_reload :: "pydict \<Rightarrow> world \<Rightarrow> bool" where
  "spec_reload store w =
     ((\<forall>k. map_of (session w) k = (if k = KStr ''history'' then None else map_of store k)) \<and>
      (case map_of store (KStr ''history'') of
         None \<Rightarrow> storage w = []
       | Some v \<Rightarrow> (case v of PDict h \<Rightarrow> (\<forall>i. map_of (storage w) i = map_of h (KInt i)) | _ \<Rightarrow> False)))"

text \<open>A store of allow-listed names with stable content.\<close>

definition store_example :: pydict where
  "store_example =
     [(KStr ''macros'', PDict [(KStr ''a'', PList [PStr ''dw'', PStr ''j''])]),
      (KStr ''history'', PDict [(KInt 1, PDict [(KStr ''items'', PList [PStr ''s/a/b''])]),
                                (KInt 2, PDict [])]),
      (KStr ''last_used_register_name'', PStr ''a'')]"

text \<open>The document \<^verbatim>\<open>json.dumps\<close> writes for that store.\<close>

definition document_example :: json where
  "document_example =
     JObj [(''macros'', JObj [(''a'', JArr [JStr ''dw'', JStr ''j''])]),
           (''history'', JObj [(''1'', JObj [(''items'', JArr [JStr ''s/a/b''])]),
                               (''2'', JObj [])]),
           (''last_used_register_name'', JStr ''a'')]"

subsection \<open>What the specification says of decoding\<close>

text \<open>
  Again from the words of the specification: \<open>promote\<close> replaces, in every mapping at
  every depth, each key that is a non-empty string of decimal digits by its integer
  value and passes every other key and all values through. A document is \<open>plain\<close> when
  \<^verbatim>\<open>str.isdigit\<close> and that reading of a digit string agree on each of its keys.
\<close>

definition decimal_string :: "string \<Rightarrow> bool" where
  "decimal_string k = (k \<noteq> [] \<and> list_all is_decimal k)"

definition promote_key :: "pykey \<Rightarrow> pykey" where
  "promote_key k =
     (case k of
        KInt i \<Rightarrow> KInt i
      | KStr s \<Rightarrow> if decimal_string s then KInt (int (digits_val s)) else KStr s)"

definition promote_dict :: "pydict \<Rightarrow> pydict" where
  "promote_dict d = foldl (\<lambda>acc (k, v). AList.update (promote_key k) v acc) [] d"

fun promote :: "json \<Rightarrow> pyval"
  and promote_list :: "json list \<Rightarrow> pyval list"
  and promote_pairs :: "(string \<times> json) list \<Rightarrow> (string \<times> pyval) list" where
  "promote JNull = PNone"
| "promote (JBool b) = PBool b"
| "promote (JNum i) = PInt i"
| "promote (JStr s) = PStr s"
| "promote (JArr js) = PList (promote_list js)"
| "promote (JObj ms) = PDict (promote_dict (dict_of_pairs (promote_pairs ms)))"
| "promote_list [] = []"
| "promote_list (j # js) = promote j # promote_list js"
| "promote_pairs [] = []"
| "promote_pairs ((k, j) # ms) = (k, promote j) # promote_pairs ms"

fun plain :: "json \<Rightarrow> bool"
  and plain_list :: "json list \<Rightarrow> bool"
  and plain_pairs :: "(string \<times> json) list \<Rightarrow> bool" where
  "plain JNull = True"
| "plain (JBool b) = True"
| "plain (JNum i) = True"
| "plain (JStr s) = True"
| "plain (JArr js) = plain_list js"
| "plain (JObj ms) = plain_pairs ms"
| "plain_list [] = True"
| "plain_list (j # js) = (plain j \<and> plain_list js)"
| "plain_pairs [] = True"
| "plain_pairs ((k, j) # ms) = (isdigit k = decimal_string k \<and> plain j \<and> plain_pairs ms)"

section \<open>Properties\<close>

subsection \<open>Dictionaries\<close>

lemma update_absent: "k \<notin> fst ` set d \<Longrightarrow> AList.update k v d = d @ [(k, v)]"
  by (induction d) auto

lemma delete_absent: "k \<notin> fst ` set d \<Longrightarrow> AList.delete k d = d"
  by (induction d) auto

lemma map_of_None_iff: "(map_of d k = None) = (k \<notin> fst ` set d)"
  by (simp add: map_of_eq_None_iff)

subsection \<open>Decimal strings\<close>

lemma digit_chr_ord: "d < 10 \<Longrightarrow> ord (digit_chr d) = 48 + d"
proof -
  assume "d < 10"
  then have "d = 0 \<or> d = 1 \<or> d = 2 \<or> d = 3 \<or> d = 4 \<or> d = 5 \<or> d = 6 \<or> d = 7 \<or> d = 8 \<or> d = 9"
    by arith
  then consider "d = 0" | "d = 1" | "d = 2" | "d = 3" | "d = 4" | "d = 5" | "d = 6" | "d = 7"
    | "d = 8" | "d = 9" by blast
  then show ?thesis by cases (simp_all add: digit_chr_def ord_def)
qed

lemma digit_chr_decimal: "d < 10 \<Longrightarrow> is_decimal (digit_chr d)"
  by (simp add: is_decimal_def digit_chr_ord)

lemma digit_val_chr: "d < 10 \<Longrightarrow> digit_val (digit_chr d) = d"
  by (simp add: digit_val_def digit_chr_ord)

lemma str_nat_decimal: "str_nat n \<noteq> [] \<and> list_all is_decimal (str_nat n)"
proof (induction n rule: str_nat.induct)
  case (1 n)
  show ?case
  proof (cases "n < 10")
    case True
    then show ?thesis by (simp add: str_nat.simps [of n] digit_chr_decimal)
  next
    case False
    with 1 show ?thesis by (simp add: str_nat.simps [of n] digit_chr_decimal)
  qed
qed

lemma digits_val_snoc: "digits_val (s @ [c]) = 10 * digits_val s + digit_val c"
  by (simp add: digits_val_def)

lemma digits_val_str_nat: "digits_val (str_nat n) = n"
proof (induction n rule: str_nat.induct)
  case (1 n)
  show ?case
  proof (cases "n < 10")
    case True
    then show ?thesis by (simp add: str_nat.simps [of n] digits_val_def digit_val_chr)
  next
    case False
    with 1 show ?thesis by (simp add: str_nat.simps [of n] digits_val_snoc digit_val_chr)
  qed
qed

lemma decimal_not_underscore: "is_decimal c \<Longrightarrow> c \<noteq> CHR ''_''"
  by (auto simp: is_decimal_def ord_def)

lemma decimal_not_sign: "is_decimal c \<Longrightarrow> c \<noteq> CHR ''-'' \<and> c \<noteq> CHR ''+''"
  by (auto simp: is_decimal_def ord_def)

lemma decimal_not_space: "is_decimal c \<Longrightarrow> \<not> int_space c"
  by (auto simp: is_decimal_def int_space_def)

lemma decimal_isdigit: "is_decimal c \<Longrightarrow> isdigit_chr c"
  by (simp add: isdigit_chr_def)

lemma int_digits_decimal: "s \<noteq> [] \<Longrightarrow> list_all is_decimal s \<Longrightarrow> int_digits s = Some s"
  by (induction s rule: int_digits.induct) (auto simp: decimal_not_underscore)

lemma dropWhile_decimal: "list_all is_decimal s \<Longrightarrow> dropWhile int_space s = s"
  by (cases s) (auto simp: decimal_not_space)

lemma py_int_decimal:
  assumes "s \<noteq> []" and "list_all is_decimal s"
  shows "py_int s = Inr (int (digits_val s))"
proof -
  from assms obtain c cs where s: "s = c # cs" by (cases s) auto
  from assms have r: "list_all is_decimal (rev s)" by (simp add: list_all_iff)
  have u: "int_unsigned s = Inr (int (digits_val s))"
    using assms by (simp add: int_unsigned_def dropWhile_decimal [OF r] int_digits_decimal)
  from assms s have "is_decimal c" by simp
  from decimal_not_sign [OF this] u dropWhile_decimal [OF assms(2)] s show ?thesis
    by (simp add: py_int_def)
qed

lemma py_int_py_str: "0 \<le> i \<Longrightarrow> py_int (py_str i) = Inr i"
  using str_nat_decimal [of "nat i"]
  by (simp add: py_str_def py_int_decimal digits_val_str_nat)

lemma isdigit_py_str: "0 \<le> i \<Longrightarrow> isdigit (py_str i)"
  using str_nat_decimal [of "nat i"]
  by (auto simp: py_str_def isdigit_def list_all_iff decimal_isdigit)

lemma int_unsigned_decimal:
  "s \<noteq> [] \<Longrightarrow> list_all is_decimal s \<Longrightarrow> int_unsigned s = Inr (int (digits_val s))"
proof -
  assume s: "s \<noteq> []" "list_all is_decimal s"
  then have "list_all is_decimal (rev s)" by (simp add: list_all_iff)
  from dropWhile_decimal [OF this] s show ?thesis
    by (simp add: int_unsigned_def int_digits_decimal)
qed

lemma digit_of_decimal: "digit_of c = Some d \<Longrightarrow> is_decimal c \<and> digit_val c = d"
  by (auto simp: digit_of_def is_decimal_def digit_val_def ord_def split: if_splits)

lemma decimal_of_foldl:
  "decimal_of a s = Some n \<Longrightarrow>
   list_all is_decimal s \<and> foldl (\<lambda>a c. 10 * a + digit_val c) a s = n"
proof (induction s arbitrary: a)
  case Nil
  then show ?case by simp
next
  case (Cons c s)
  from Cons.prems obtain d where d: "digit_of c = Some d" "decimal_of (10 * a + d) s = Some n"
    by (auto split: option.splits)
  from Cons.IH [OF d(2)] digit_of_decimal [OF d(1)] show ?case by simp
qed

lemma index_of_text_py_int: "index_of_text s = Some i \<Longrightarrow> py_int s = Inr i"
proof (cases s)
  case Nil
  assume "index_of_text s = Some i"
  with Nil show ?thesis by (simp add: index_of_text_def)
next
  case (Cons c cs)
  assume i: "index_of_text s = Some i"
  show ?thesis
  proof (cases "c = CHR ''-''")
    case True
    with i Cons obtain n where n: "cs \<noteq> []" "decimal_of 0 cs = Some n" "i = - int n"
      by (auto simp: index_of_text_def split: if_splits)
    from decimal_of_foldl [OF n(2)] have "list_all is_decimal cs" "digits_val cs = n"
      by (simp_all add: digits_val_def)
    with int_unsigned_decimal [OF n(1)] have "int_unsigned cs = Inr (int n)" by simp
    moreover have "\<not> int_space (CHR ''-'')" by (simp add: int_space_def ord_def)
    ultimately show ?thesis using Cons True n(3) by (simp add: py_int_def)
  next
    case False
    with i Cons obtain n where n: "decimal_of 0 s = Some n" "i = int n"
      by (auto simp: index_of_text_def)
    from decimal_of_foldl [OF n(1)] have "list_all is_decimal s" "digits_val s = n"
      by (simp_all add: digits_val_def)
    with py_int_decimal [of s] Cons n(2) show ?thesis by simp
  qed
qed

lemma spec_index_int_of_key: "spec_index k = Some i \<Longrightarrow> int_of_key k = Inr i"
  by (cases k) (simp_all add: index_of_text_py_int)

subsection \<open>The per-document store\<close>

text \<open>
  C1, as stated, fails: \<^verbatim>\<open>_views\<close> is a \<^verbatim>\<open>defaultdict(dict)\<close>, so the lookup
  \<^verbatim>\<open>_views[view.id()]\<close> inside \<^verbatim>\<open>get_session_view_value\<close> stores an empty dictionary for
  a document that had none. Document 1 has no entry in the fresh state and has one after
  a single read.
\<close>

theorem get_session_view_value_creates_entry:
  "1 \<notin> fst ` set (views fresh) \<and>
   1 \<in> fst ` set (views (snd (get_session_view_value 1 ''k'' (PStr ''d'') fresh)))"
  by (simp add: get_session_view_value_def default_getitem_def getitem_def fresh_def)

text \<open>
  C1, amended: a read returns the value the document's entry binds to the name, and the
  caller's default when the document has no entry or the entry does not bind the name.
  On a document without an entry the read leaves an empty entry for it behind and
  changes nothing else; on a document with an entry it changes nothing. In every case
  each name of each document is bound after the read to what it was bound before: a
  read never binds a name, \<^verbatim>\<open>set_session_view_value\<close> does.
\<close>

theorem get_session_view_value_binds_nothing:
  "(d \<notin> fst ` set (views w) \<longrightarrow>
      get_session_view_value d name dflt w = (dflt, w\<lparr>views := views w @ [(d, [])]\<rparr>)) \<and>
   (d \<in> fst ` set (views w) \<longrightarrow> snd (get_session_view_value d name dflt w) = w) \<and>
   fst (get_session_view_value d name dflt w)
     = (case bound (views w) d name of None \<Rightarrow> dflt | Some v \<Rightarrow> v) \<and>
   (\<forall>d' n. bound (views (snd (get_session_view_value d name dflt w))) d' n = bound (views w) d' n) \<and>
   bound (views (set_session_view_value d name v w)) d name = Some v"
proof (cases "map_of (views w) d")
  case None
  then have absent: "d \<notin> fst ` set (views w)" by (simp add: map_of_None_iff)
  have get: "get_session_view_value d name dflt w = (dflt, w\<lparr>views := views w @ [(d, [])]\<rparr>)"
    using None absent
    by (simp add: get_session_view_value_def default_getitem_def getitem_def update_absent)
  have same: "bound (views w @ [(d, [])]) d' n = bound (views w) d' n" for d' n
    using None by (simp add: bound_def map_of_append map_add_def split: option.splits)
  have set: "bound (views (set_session_view_value d name v w)) d name = Some v"
    using None by (simp add: set_session_view_value_def default_getitem_def bound_def update_conv')
  from get same set absent None show ?thesis by (simp add: bound_def)
next
  case (Some e)
  then have present: "d \<in> fst ` set (views w)"
    using map_of_None_iff [of "views w" d] by auto
  have get: "get_session_view_value d name dflt w
      = ((case map_of e name of None \<Rightarrow> dflt | Some v \<Rightarrow> v), w)"
    using Some
    by (simp add: get_session_view_value_def default_getitem_def getitem_def split: option.splits)
  have set: "bound (views (set_session_view_value d name v w)) d name = Some v"
    using Some by (simp add: set_session_view_value_def default_getitem_def bound_def update_conv')
  from get set present Some show ?thesis by (simp add: bound_def)
qed

theorem get_session_view_value_binds_nothing_witness:
  "7 \<notin> fst ` set (views fresh) \<and>
   get_session_view_value 7 ''k'' (PStr ''d'') fresh = (PStr ''d'', fresh\<lparr>views := [(7, [])]\<rparr>) \<and>
   1 \<in> fst ` set (views (set_session_view_value 1 ''k'' (PStr ''v'') fresh)) \<and>
   get_session_view_value 1 ''other'' (PStr ''d'') (set_session_view_value 1 ''k'' (PStr ''v'') fresh)
     = (PStr ''d'', set_session_view_value 1 ''k'' (PStr ''v'') fresh) \<and>
   get_session_view_value 1 ''k'' (PStr ''d'') (set_session_view_value 1 ''k'' (PStr ''v'') fresh)
     = (PStr ''v'', set_session_view_value 1 ''k'' (PStr ''v'') fresh)"
  using get_session_view_value_binds_nothing [of 7 fresh "''k''" "PStr ''d''" PNone]
    get_session_view_value_binds_nothing
      [of 1 "set_session_view_value 1 ''k'' (PStr ''v'') fresh" "''other''" "PStr ''d''" PNone]
    get_session_view_value_binds_nothing
      [of 1 "set_session_view_value 1 ''k'' (PStr ''v'') fresh" "''k''" "PStr ''d''" PNone]
  by (simp add: fresh_def set_session_view_value_def get_session_view_value_def
      default_getitem_def getitem_def)

text \<open>
  C9: \<^verbatim>\<open>session_on_close\<close> never raises and leaves no entry for the document; on a
  document without an entry it changes nothing, and so a second close changes nothing.
\<close>

theorem session_on_close_idempotent:
  "fst (session_on_close d w) = None \<and>
   d \<notin> fst ` set (views (snd (session_on_close d w))) \<and>
   (d \<notin> fst ` set (views w) \<longrightarrow> session_on_close d w = (None, w)) \<and>
   session_on_close d (snd (session_on_close d w)) = (None, snd (session_on_close d w))"
  by (auto simp: session_on_close_def delitem_def delete_absent AList.delete_eq)

theorem session_on_close_idempotent_witness:
  "(2::int) \<notin> fst ` set (views (set_session_view_value 1 ''k'' (PStr ''v'') fresh)) \<and>
   session_on_close 2 (set_session_view_value 1 ''k'' (PStr ''v'') fresh)
     = (None, set_session_view_value 1 ''k'' (PStr ''v'') fresh) \<and>
   1 \<in> fst ` set (views (set_session_view_value 1 ''k'' (PStr ''v'') fresh)) \<and>
   1 \<notin> fst ` set (views (snd (session_on_close 1 (set_session_view_value 1 ''k'' (PStr ''v'') fresh))))"
  using session_on_close_idempotent [of 2 "set_session_view_value 1 ''k'' (PStr ''v'') fresh"]
    session_on_close_idempotent [of 1 "set_session_view_value 1 ''k'' (PStr ''v'') fresh"]
  by (simp add: set_session_view_value_def default_getitem_def fresh_def)

subsection \<open>Saving\<close>

lemma dumps_items_keys:
  "dumps_items d = Inr ms \<Longrightarrow>
   list_all2 (\<lambda>(k, v) (n, j). n = key_str k \<and> dumps v = Inr j) d ms"
proof (induction d arbitrary: ms)
  case Nil
  then show ?case by simp
next
  case (Cons a d)
  obtain k v where a: "a = (k, v)" by (cases a)
  from Cons.prems a obtain j ms' where
    j: "dumps v = Inr j" and ms': "dumps_items d = Inr ms'" and ms: "ms = (key_str k, j) # ms'"
    by (auto split: sum.splits simp: map_sum_def)
  from Cons.IH [OF ms'] j a ms show ?case by simp
qed

lemma save_session_cases:
  "save_session w =
     (case dumps_items (session w) of
        Inl e \<Rightarrow> (Some e, w)
      | Inr ms \<Rightarrow>
          if disk w = Denied then (Some OSError, w)
          else (None, w\<lparr>disk := Stored (Document (JObj ms)), writes := Suc (writes w)\<rparr>))"
  by (simp add: save_session_def map_sum_def split: sum.splits durable.splits)

text \<open>
  C7: \<^verbatim>\<open>save_session\<close> returns normally exactly when the store is serialisable and the
  file can be opened. It then has written one JSON object with one member per item of
  \<^verbatim>\<open>_session\<close>, in order, whatever the name (nothing is filtered), and that object is the
  whole new content of the file whatever the file held before. When it raises, the file
  is as it was.
\<close>

theorem save_session_writes_full_store:
  "(fst (save_session w) = None) = ((\<exists>ms. dumps_items (session w) = Inr ms) \<and> disk w \<noteq> Denied) \<and>
   (fst (save_session w) = None \<longrightarrow>
      (\<exists>ms. list_all2 (\<lambda>(k, v) (n, j). n = key_str k \<and> dumps v = Inr j) (session w) ms \<and>
            snd (save_session w) = w\<lparr>disk := Stored (Document (JObj ms)), writes := Suc (writes w)\<rparr>)) \<and>
   (fst (save_session w) \<noteq> None \<longrightarrow> snd (save_session w) = w)"
proof (cases "dumps_items (session w)")
  case (Inl e)
  then show ?thesis by (simp add: save_session_cases)
next
  case (Inr ms)
  from dumps_items_keys [OF Inr] Inr show ?thesis
    by (auto simp: save_session_cases)
qed

theorem save_session_writes_full_store_witness:
  "fst (save_session busy) = None \<and>
   snd (save_session busy) =
     busy\<lparr>disk := Stored (Document (JObj [(''macros'', JObj [(''a'', JArr [JStr ''dw''])]),
                                           (''bogus'', JNum 1)])),
           writes := 1\<rparr>"
  using save_session_writes_full_store [of busy]
  by (simp add: busy_def fresh_def save_session_def)

text \<open>
  C8: from build 4081 on, \<^verbatim>\<open>session_on_exit\<close> is one call of \<^verbatim>\<open>save_session\<close> (the file
  is written once when that call returns normally); on an older build it returns at once
  and changes nothing.
\<close>

theorem session_on_exit_policy:
  "(4081 \<le> build \<longrightarrow>
      session_on_exit build w = save_session w \<and>
      writes (snd (session_on_exit build w)) =
        (if fst (session_on_exit build w) = None then Suc (writes w) else writes w)) \<and>
   (build < 4081 \<longrightarrow> session_on_exit build w = (None, w))"
  by (auto simp: session_on_exit_def save_session_cases split: sum.splits)

theorem session_on_exit_policy_witness:
  "session_on_exit 4200 busy =
     (None, busy\<lparr>disk := Stored (Document (JObj [(''macros'', JObj [(''a'', JArr [JStr ''dw''])]),
                                           (''bogus'', JNum 1)])),
           writes := 1\<rparr>) \<and>
   session_on_exit 3211 busy = (None, busy)"
  using session_on_exit_policy [of 4200 busy] session_on_exit_policy [of 3211 busy]
  by (simp add: busy_def fresh_def save_session_def)

text \<open>
  C2: \<^verbatim>\<open>set_session_value\<close> always stores the value. When it returns normally, the file
  has been written (once, with the serialised store including the new value) exactly when
  \<^verbatim>\<open>persist\<close> is true and the build is older than 4081; that call returns normally
  exactly when the store is serialisable and the file can be opened. In every other case
  the call returns normally and the file is not written; nor is it when the call raises.
\<close>

theorem set_session_value_persist:
  "session (snd (set_session_value build name v persist w)) = AList.update (KStr name) v (session w) \<and>
   (fst (set_session_value build name v persist w) = None \<longrightarrow>
      (writes (snd (set_session_value build name v persist w)) = Suc (writes w))
        = (persist \<and> build < 4081)) \<and>
   (persist \<and> build < 4081 \<and> fst (set_session_value build name v persist w) = None \<longrightarrow>
      (\<exists>j. dumps (PDict (AList.update (KStr name) v (session w))) = Inr j \<and>
           disk (snd (set_session_value build name v persist w)) = Stored (Document j))) \<and>
   (persist \<and> build < 4081 \<longrightarrow>
      (fst (set_session_value build name v persist w) = None)
        = ((\<exists>j. dumps (PDict (AList.update (KStr name) v (session w))) = Inr j) \<and> disk w \<noteq> Denied)) \<and>
   (\<not> (persist \<and> build < 4081) \<longrightarrow>
      fst (set_session_value build name v persist w) = None \<and>
      disk (snd (set_session_value build name v persist w)) = disk w \<and>
      writes (snd (set_session_value build name v persist w)) = writes w) \<and>
   (fst (set_session_value build name v persist w) \<noteq> None \<longrightarrow>
      disk (snd (set_session_value build name v persist w)) = disk w \<and>
      writes (snd (set_session_value build name v persist w)) = writes w)"
  by (auto simp: set_session_value_def save_session_def Let_def split: sum.splits durable.splits)

theorem set_session_value_persist_witness:
  "set_session_value 3211 ''macros'' (PDict []) True fresh =
     (None, fresh\<lparr>session := [(KStr ''macros'', PDict [])],
                  disk := Stored (Document (JObj [(''macros'', JObj [])])), writes := 1\<rparr>) \<and>
   set_session_value 4200 ''macros'' (PDict []) True fresh =
     (None, fresh\<lparr>session := [(KStr ''macros'', PDict [])]\<rparr>) \<and>
   set_session_value 3211 ''macros'' (PDict []) False fresh =
     (None, fresh\<lparr>session := [(KStr ''macros'', PDict [])]\<rparr>)"
  using set_session_value_persist [of 3211 "''macros''" "PDict []" True fresh]
    set_session_value_persist [of 4200 "''macros''" "PDict []" True fresh]
    set_session_value_persist [of 3211 "''macros''" "PDict []" False fresh]
  by (simp add: fresh_def set_session_value_def save_session_def)

subsection \<open>Loading\<close>

text \<open>
  C3: \<^verbatim>\<open>load_session\<close> never lets an exception out, whatever the state of the file. When
  the file is absent, blank or not JSON, the store, the history storage and the
  per-document store are as before (an empty store stays empty); only for text that is
  not JSON a trace is printed.
\<close>

theorem load_session_never_raises:
  "fst (load_session w) = None \<and>
   (disk w = Absent \<or> disk w = Stored Blank \<or> disk w = Stored Garbage \<longrightarrow>
      session (snd (load_session w)) = session w \<and>
      storage (snd (load_session w)) = storage w \<and>
      views (snd (load_session w)) = views w \<and>
      disk (snd (load_session w)) = disk w \<and>
      traces (snd (load_session w)) =
        (if disk w = Stored Garbage then traces w @ [JSONDecodeError] else traces w))"
  by (auto simp: load_session_def load_body_def
      split: prod.splits option.splits durable.splits content.splits sum.splits)

theorem load_session_never_raises_witness:
  "load_session (fresh\<lparr>disk := Stored Garbage\<rparr>) =
     (None, fresh\<lparr>disk := Stored Garbage, traces := [JSONDecodeError]\<rparr>) \<and>
   load_session (fresh\<lparr>disk := Stored Blank\<rparr>) = (None, fresh\<lparr>disk := Stored Blank\<rparr>) \<and>
   load_session fresh = (None, fresh) \<and> session fresh = []"
  using load_session_never_raises [of "fresh\<lparr>disk := Stored Garbage\<rparr>"]
    load_session_never_raises [of "fresh\<lparr>disk := Stored Blank\<rparr>"]
    load_session_never_raises [of fresh]
  by (simp add: fresh_def load_session_def load_body_def)

lemma load_history_spec:
  "list_all (\<lambda>(k, x). spec_index k \<noteq> None) h \<Longrightarrow>
   \<exists>st'. load_history h st = (None, st') \<and> map_of st' = map_of st ++ map_of (rev (index_entries h))"
proof (induction h arbitrary: st)
  case Nil
  then show ?case by (simp add: index_entries_def)
next
  case (Cons a h)
  obtain k x where a: "a = (k, x)" by (cases a)
  from Cons.prems a obtain i where i: "spec_index k = Some i" by auto
  from spec_index_int_of_key [OF i] have ik: "int_of_key k = Inr i" .
  from Cons.prems have "list_all (\<lambda>(k, x). spec_index k \<noteq> None) h" by simp
  from Cons.IH [OF this, of "AList.update i x st"] obtain st' where
    st': "load_history h (AList.update i x st) = (None, st')"
      "map_of st' = map_of (AList.update i x st) ++ map_of (rev (index_entries h))"
    by blast
  have "index_entries (a # h) = (i, x) # index_entries h"
    by (simp add: index_entries_def a i)
  then have "map_of st ++ map_of (rev (index_entries (a # h)))
      = (map_of st)(i \<mapsto> x) ++ map_of (rev (index_entries h))"
    by (simp add: map_of_append)
  with st' show ?case by (simp add: a ik update_conv')
qed

lemma in_accept_keys:
  "(k \<in> set accept_keys) = (k = KStr ''history'' \<or> k \<in> set copied_names)"
  by (auto simp: accept_keys_def copied_names_def)

lemma history_not_copied: "KStr ''history'' \<notin> set copied_names"
  by (simp add: copied_names_def)

lemma load_items_spec:
  "distinct (map fst items) \<Longrightarrow> history_indexed items \<Longrightarrow>
   \<exists>w'. load_items items w = (None, w') \<and>
        map_of (session w') = store_after items (session w) \<and>
        map_of (storage w') = history_after items (storage w) \<and>
        views w' = views w \<and> disk w' = disk w \<and> writes w' = writes w \<and> traces w' = traces w"
proof (induction items arbitrary: w)
  case Nil
  show ?case by (auto simp: store_after_def history_after_def)
next
  case (Cons a items)
  obtain k v where a: "a = (k, v)" by (cases a)
  from Cons.prems a have dist: "distinct (map fst items)" and fresh_k: "map_of items k = None"
    by (auto simp: map_of_eq_None_iff)
  show ?case
  proof (cases "k \<in> set accept_keys")
    case False
    then have nh: "k \<noteq> KStr ''history''" and nc: "k \<notin> set copied_names"
      by (simp_all add: in_accept_keys)
    with Cons.prems a have wf: "history_indexed items" by (simp add: history_indexed_def)
    from Cons.IH [OF dist wf, of w] obtain w' where
      w': "load_items items w = (None, w')" "map_of (session w') = store_after items (session w)"
        "map_of (storage w') = history_after items (storage w)"
        "views w' = views w" "disk w' = disk w" "writes w' = writes w" "traces w' = traces w"
      by blast
    have s: "store_after (a # items) (session w) = store_after items (session w)"
      using nc by (auto simp: store_after_def a fun_eq_iff)
    have h: "history_after (a # items) (storage w) = history_after items (storage w)"
      using nh by (simp add: history_after_def a)
    from w' s h False show ?thesis by (simp add: a)
  next
    case True
    show ?thesis
    proof (cases "k = KStr ''history''")
      case hist: True
      from Cons.prems a hist obtain h where v: "v = PDict h"
        and conv: "list_all (\<lambda>(k, x). spec_index k \<noteq> None) h"
        by (auto simp: history_indexed_def split: pyval.splits)
      from load_history_spec [OF conv, of "[]"] obtain st where
        st: "load_history h [] = (None, st)" "map_of st = map_of (rev (index_entries h))"
        by auto
      from fresh_k hist have wf: "history_indexed items" by (simp add: history_indexed_def)
      from Cons.IH [OF dist wf, of "w\<lparr>storage := st\<rparr>"] obtain w' where
        w': "load_items items (w\<lparr>storage := st\<rparr>) = (None, w')"
          "map_of (session w') = store_after items (session w)"
          "map_of (storage w') = history_after items st"
          "views w' = views w" "disk w' = disk w" "writes w' = writes w" "traces w' = traces w"
        by auto
      have s: "store_after (a # items) (session w) = store_after items (session w)"
        using hist history_not_copied by (auto simp: store_after_def a fun_eq_iff)
      have h: "history_after (a # items) (storage w) = map_of (rev (index_entries h))"
        using hist by (simp add: history_after_def a v)
      have h': "history_after items st = map_of st"
        using fresh_k hist by (simp add: history_after_def)
      from w' s h h' st True hist show ?thesis by (simp add: a v)
    next
      case nh: False
      with True have cp: "k \<in> set copied_names" by (simp add: in_accept_keys)
      from nh Cons.prems a have wf: "history_indexed items" by (simp add: history_indexed_def)
      let ?w = "w\<lparr>session := AList.update k v (session w)\<rparr>"
      from Cons.IH [OF dist wf, of ?w] obtain w' where
        w': "load_items items ?w = (None, w')"
          "map_of (session w') = store_after items (AList.update k v (session w))"
          "map_of (storage w') = history_after items (storage w)"
          "views w' = views w" "disk w' = disk w" "writes w' = writes w" "traces w' = traces w"
        by auto
      have s: "store_after (a # items) (session w) = store_after items (AList.update k v (session w))"
        using cp fresh_k by (auto simp: store_after_def a fun_eq_iff update_conv' split: option.splits)
      have h: "history_after (a # items) (storage w) = history_after items (storage w)"
        using nh by (simp add: history_after_def a)
      from w' s h True nh show ?thesis by (simp add: a)
    qed
  qed
qed

lemma str_key_to_int_distinct:
  "str_key_to_int d acc = Inr r \<Longrightarrow> distinct (map fst acc) \<Longrightarrow> distinct (map fst r)"
  by (induction d acc rule: str_key_to_int.induct)
     (auto split: if_splits sum.splits simp: distinct_update)

lemma loads_dict_distinct: "loads j = Inr (PDict items) \<Longrightarrow> distinct (map fst items)"
proof (cases j)
  case (JObj ms)
  assume "loads j = Inr (PDict items)"
  with JObj obtain ps where "str_key_to_int (dict_of_pairs ps) [] = Inr items"
    by (auto split: sum.splits simp: map_sum_def)
  from str_key_to_int_distinct [OF this] show ?thesis by simp
qed (auto simp: map_sum_def split: sum.splits)

text \<open>
  C5, as stated, fails on a record the specification itself gives as an example of
  decoding, here with \<^verbatim>\<open>macros\<close> after it. The record decodes; its \<^verbatim>\<open>history\<close> has the key
  \<^verbatim>\<open>"foo"\<close>. The storage is cleared, the entry under 3 is stored, then \<^verbatim>\<open>int("foo")\<close>
  raises: the load stops with a trace and the allow-listed \<^verbatim>\<open>macros\<close> never reaches the
  GlobalStore.
\<close>

theorem load_session_stops_at_history_key:
  "loads (JObj [(''history'', JObj [(''3'', JStr ''x''), (''foo'', JStr ''y'')]),
                (''macros'', JObj [])])
     = Inr (PDict [(KStr ''history'', PDict [(KInt 3, PStr ''x''), (KStr ''foo'', PStr ''y'')]),
                   (KStr ''macros'', PDict [])]) \<and>
   load_session (fresh\<lparr>storage := [(9, PStr ''old'')],
       disk := Stored (Document (JObj [(''history'', JObj [(''3'', JStr ''x''), (''foo'', JStr ''y'')]),
                                       (''macros'', JObj [])]))\<rparr>)
     = (None, fresh\<lparr>storage := [(3, PStr ''x'')],
       disk := Stored (Document (JObj [(''history'', JObj [(''3'', JStr ''x''), (''foo'', JStr ''y'')]),
                                       (''macros'', JObj [])])),
       traces := [ValueError]\<rparr>)"
  by code_simp

text \<open>
  C5, amended: for a decoded record whose \<^verbatim>\<open>history\<close> field, if it has one, is a mapping
  from integer indices (integers, or strings of decimal digits with a minus sign in
  front), \<^verbatim>\<open>load_session\<close> raises nothing and prints no trace. Each of the names
  \<^verbatim>\<open>ex_substitute_last_pattern\<close>, \<^verbatim>\<open>ex_substitute_last_replacement\<close>,
  \<^verbatim>\<open>last_used_register_name\<close> and \<^verbatim>\<open>macros\<close> that the record has is in the GlobalStore with
  the record's value; every other name of the GlobalStore, \<^verbatim>\<open>history\<close> included, is bound
  as it was before. With a \<^verbatim>\<open>history\<close> field the history storage holds exactly the entries
  of that mapping, each under the integer of its key (a later entry wins); without one
  it is as before. Nothing else changes.
\<close>

theorem load_session_distributes:
  assumes "disk w = Stored (Document j)" and "loads j = Inr (PDict items)"
    and "history_indexed items"
  shows "fst (load_session w) = None \<and>
    traces (snd (load_session w)) = traces w \<and>
    (\<forall>k v. k \<in> {KStr ''ex_substitute_last_pattern'', KStr ''ex_substitute_last_replacement'',
              KStr ''last_used_register_name'', KStr ''macros''} \<and> map_of items k = Some v \<longrightarrow>
       map_of (session (snd (load_session w))) k = Some v) \<and>
    (\<forall>k. k \<notin> {KStr ''ex_substitute_last_pattern'', KStr ''ex_substitute_last_replacement'',
             KStr ''last_used_register_name'', KStr ''macros''} \<or> map_of items k = None \<longrightarrow>
       map_of (session (snd (load_session w))) k = map_of (session w) k) \<and>
    (map_of items (KStr ''history'') = None \<longrightarrow>
       map_of (storage (snd (load_session w))) = map_of (storage w)) \<and>
    (\<forall>h. map_of items (KStr ''history'') = Some (PDict h) \<longrightarrow>
       map_of (storage (snd (load_session w))) = map_of (rev (index_entries h))) \<and>
    views (snd (load_session w)) = views w \<and>
    disk (snd (load_session w)) = disk w \<and>
    writes (snd (load_session w)) = writes w"
proof -
  from load_items_spec [OF loads_dict_distinct [OF assms(2)] assms(3), of w] obtain w' where
    w': "load_items items w = (None, w')" "map_of (session w') = store_after items (session w)"
      "map_of (storage w') = history_after items (storage w)"
      "views w' = views w" "disk w' = disk w" "writes w' = writes w" "traces w' = traces w"
    by blast
  have "load_session w = (None, w')"
  proof (cases "items = []")
    case True
    with w' have "w' = w" by simp
    with True assms show ?thesis
      by (simp add: load_session_def load_body_def truthy_def)
  next
    case False
    with assms w' show ?thesis
      by (simp add: load_session_def load_body_def truthy_def)
  qed
  with w' show ?thesis
    by (auto simp: store_after_def history_after_def copied_names_def)
qed

theorem load_session_distributes_witness:
  "loads record_example =
     Inr (PDict [(KStr ''bogus'', PInt 1),
                 (KStr ''macros'', PDict []),
                 (KStr ''history'',
                    PDict [(KInt 3, PStr ''x''), (KInt 12, PStr ''y''), (KStr ''-1'', PStr ''z'')]),
                 (KStr ''last_used_register_name'', PStr ''a'')]) \<and>
   history_indexed [(KStr ''bogus'', PInt 1),
                 (KStr ''macros'', PDict []),
                 (KStr ''history'',
                    PDict [(KInt 3, PStr ''x''), (KInt 12, PStr ''y''), (KStr ''-1'', PStr ''z'')]),
                 (KStr ''last_used_register_name'', PStr ''a'')] \<and>
   index_entries [(KInt 3, PStr ''x''), (KInt 12, PStr ''y''), (KStr ''-1'', PStr ''z'')]
     = [(3, PStr ''x''), (12, PStr ''y''), (- 1, PStr ''z'')] \<and>
   load_session (fresh\<lparr>storage := [(9, PStr ''old'')], disk := Stored (Document record_example)\<rparr>) =
     (None, fresh\<lparr>session := [(KStr ''macros'', PDict []), (KStr ''last_used_register_name'', PStr ''a'')],
                  storage := [(3, PStr ''x''), (12, PStr ''y''), (- 1, PStr ''z'')],
                  disk := Stored (Document record_example)\<rparr>)"
proof -
  let ?items = "[(KStr ''bogus'', PInt 1),
                 (KStr ''macros'', PDict []),
                 (KStr ''history'',
                    PDict [(KInt 3, PStr ''x''), (KInt 12, PStr ''y''), (KStr ''-1'', PStr ''z'')]),
                 (KStr ''last_used_register_name'', PStr ''a'')]"
  let ?w = "fresh\<lparr>storage := [(9, PStr ''old'')], disk := Stored (Document record_example)\<rparr>"
  have a: "disk ?w = Stored (Document record_example)" by simp
  have b: "loads record_example = Inr (PDict ?items)" by code_simp
  have c: "history_indexed ?items" by code_simp
  have d: "load_session ?w =
     (None, fresh\<lparr>session := [(KStr ''macros'', PDict []), (KStr ''last_used_register_name'', PStr ''a'')],
                  storage := [(3, PStr ''x''), (12, PStr ''y''), (- 1, PStr ''z'')],
                  disk := Stored (Document record_example)\<rparr>)" by code_simp
  have e: "index_entries [(KInt 3, PStr ''x''), (KInt 12, PStr ''y''), (KStr ''-1'', PStr ''z'')]
     = [(3, PStr ''x''), (12, PStr ''y''), (- 1, PStr ''z'')]" by code_simp
  from load_session_distributes [OF a b c] b c d e show ?thesis by simp
qed

subsection \<open>The round trip through the codec\<close>

lemma key_str_inj: "stable_key k \<Longrightarrow> stable_key k' \<Longrightarrow> key_str k = key_str k' \<Longrightarrow> k = k'"
proof (cases k; cases k')
  fix i i' assume "k = KInt i" "k' = KInt i'" "stable_key k" "stable_key k'" "key_str k = key_str k'"
  then have "py_int (py_str i) = py_int (py_str i')" "0 \<le> i" "0 \<le> i'" by simp_all
  then have "i = i'" by (simp add: py_int_py_str)
  then show "k = k'" using \<open>k = KInt i\<close> \<open>k' = KInt i'\<close> by simp
qed (auto dest: isdigit_py_str)

lemma stable_items_keys: "stable_items d \<Longrightarrow> (k, v) \<in> set d \<Longrightarrow> stable_key k \<and> stable v"
  by (induction d) auto

lemma stable_items_distinct:
  assumes "stable_items d" and "distinct (map fst d)"
  shows "distinct (map (\<lambda>x. key_str (fst x)) d)"
proof -
  have "inj_on key_str (fst ` set d)"
  proof (rule inj_onI)
    fix k k' assume "k \<in> fst ` set d" "k' \<in> fst ` set d" and eq: "key_str k = key_str k'"
    then obtain v v' where "(k, v) \<in> set d" "(k', v') \<in> set d" by auto
    with stable_items_keys [OF assms(1)] have "stable_key k" "stable_key k'" by blast+
    with eq show "k = k'" by (rule key_str_inj [rotated 2])
  qed
  with assms(2) have "distinct (map key_str (map fst d))"
    by (simp only: distinct_map set_map simp_thms)
  then show ?thesis by (simp add: comp_def)
qed

lemma dict_of_pairs_foldl:
  "distinct (map fst ps) \<Longrightarrow> (\<forall>s \<in> fst ` set ps. KStr s \<notin> fst ` set acc) \<Longrightarrow>
   foldl (\<lambda>d (k, v). AList.update (KStr k) v d) acc ps = acc @ map (\<lambda>(s, v). (KStr s, v)) ps"
proof (induction ps arbitrary: acc)
  case Nil
  then show ?case by simp
next
  case (Cons p ps)
  obtain s v where p: "p = (s, v)" by (cases p)
  from Cons.prems p have a: "AList.update (KStr s) v acc = acc @ [(KStr s, v)]"
    by (intro update_absent) auto
  from Cons.prems p have "\<forall>t \<in> fst ` set ps. KStr t \<notin> fst ` set (acc @ [(KStr s, v)])"
    by auto
  with Cons.IH [of "acc @ [(KStr s, v)]"] Cons.prems show ?case
    by (simp add: p a)
qed

lemma dict_of_pairs_distinct:
  "distinct (map fst ps) \<Longrightarrow> dict_of_pairs ps = map (\<lambda>(s, v). (KStr s, v)) ps"
  using dict_of_pairs_foldl [of ps "[]"] by (simp add: dict_of_pairs_def)

lemma str_key_to_int_stable:
  "stable_items d \<Longrightarrow> distinct (map fst d) \<Longrightarrow> fst ` set d \<inter> fst ` set acc = {} \<Longrightarrow>
   str_key_to_int (map (\<lambda>(k, v). (KStr (key_str k), v)) d) acc = Inr (acc @ d)"
proof (induction d arbitrary: acc)
  case Nil
  then show ?case by simp
next
  case (Cons a d)
  obtain k v where a: "a = (k, v)" by (cases a)
  from Cons.prems a have k: "stable_key k" and d: "stable_items d" "distinct (map fst d)"
    and new: "k \<notin> fst ` set acc" and "k \<notin> fst ` set d" and "fst ` set d \<inter> fst ` set acc = {}"
    by auto
  then have disj: "fst ` set d \<inter> fst ` set (acc @ [(k, v)]) = {}" by auto
  have step: "str_key_to_int ((KStr (key_str k), v) # map (\<lambda>(k, v). (KStr (key_str k), v)) d) acc
      = str_key_to_int (map (\<lambda>(k, v). (KStr (key_str k), v)) d) (acc @ [(k, v)])"
  proof (cases k)
    case (KInt i)
    with k new show ?thesis
      by (simp add: isdigit_py_str py_int_py_str update_absent)
  next
    case (KStr s)
    with k new show ?thesis by (simp add: update_absent)
  qed
  from Cons.IH [OF d disj] step show ?case by (simp add: a)
qed

lemma round_trip:
  "stable v \<Longrightarrow> \<exists>j. dumps v = Inr j \<and> loads j = Inr v"
  "stable_list xs \<Longrightarrow> \<exists>js. dumps_list xs = Inr js \<and> loads_list js = Inr xs"
  "stable_items d \<Longrightarrow>
     \<exists>ms. dumps_items d = Inr ms \<and> loads_pairs ms = Inr (map (\<lambda>(k, v). (key_str k, v)) d)"
proof (induction v and xs and d rule: dumps_dumps_list_dumps_items.induct)
  case (7 d)
  then obtain ms where ms: "dumps_items d = Inr ms"
    "loads_pairs ms = Inr (map (\<lambda>(k, v). (key_str k, v)) d)" by auto
  from 7 have st: "stable_items d" and di: "distinct (map fst d)" by auto
  have "distinct (map fst (map (\<lambda>(k, v). (key_str k, v)) d))"
    using stable_items_distinct [OF st di] by (simp add: case_prod_beta comp_def)
  from dict_of_pairs_distinct [OF this]
  have "dict_of_pairs (map (\<lambda>(k, v). (key_str k, v)) d) = map (\<lambda>(k, v). (KStr (key_str k), v)) d"
    by (simp add: case_prod_beta comp_def)
  with str_key_to_int_stable [OF st di, of "[]"] ms show ?case by simp
next
  case (10 x xs)
  then show ?case by auto
next
  case (12 k v d)
  then show ?case by auto
qed auto

lemma index_entries_ints:
  "list_all (\<lambda>(k, x). case k of KInt i \<Rightarrow> True | KStr s \<Rightarrow> False) h \<Longrightarrow> distinct (map fst h) \<Longrightarrow>
   map_of (rev (index_entries h)) i = map_of h (KInt i)"
proof (induction h)
  case Nil
  then show ?case by (simp add: index_entries_def)
next
  case (Cons a h)
  from Cons.prems obtain n x where a: "a = (KInt n, x)"
    by (cases a) (auto split: pykey.splits)
  from Cons.prems a have ih: "map_of (rev (index_entries h)) i = map_of h (KInt i)"
    and new: "map_of h (KInt n) = None"
    by (auto simp: Cons.IH map_of_eq_None_iff)
  have "index_entries (a # h) = (n, x) # index_entries h"
    by (simp add: index_entries_def a)
  with ih new show ?case
    by (auto simp: a map_of_append map_add_def split: option.splits)
qed

lemma history_ints_indexed: "history_ints store \<Longrightarrow> history_indexed store"
proof -
  have "list_all (\<lambda>(k, x). case k of KInt i \<Rightarrow> True | KStr s \<Rightarrow> False) h \<Longrightarrow>
        list_all (\<lambda>(k, x). spec_index k \<noteq> None) h" for h :: pydict
    by (induction h) (auto split: pykey.splits)
  then show "history_ints store \<Longrightarrow> history_indexed store"
    by (auto simp: history_ints_def history_indexed_def split: option.splits pyval.splits)
qed

text \<open>
  A tuple does not come back either: it is written as an array and decoded as a list.
\<close>

lemma tuple_becomes_list:
  "dumps (PDict [(KStr ''macros'', PDict [(KStr ''a'', PTuple [PStr ''dw'', PStr ''j''])])])
     = Inr (JObj [(''macros'', JObj [(''a'', JArr [JStr ''dw'', JStr ''j''])])]) \<and>
   loads (JObj [(''macros'', JObj [(''a'', JArr [JStr ''dw'', JStr ''j''])])])
     = Inr (PDict [(KStr ''macros'', PDict [(KStr ''a'', PList [PStr ''dw'', PStr ''j''])])])"
  by code_simp

text \<open>
  C6, as stated, fails: a macro recorded under the register name \<^verbatim>\<open>"1"\<close> is written as
  the member \<^verbatim>\<open>"1"\<close> and decoded under the integer key 1, so the decoded store differs
  from the one encoded.
\<close>

theorem round_trip_counterexample:
  "dumps (PDict [(KStr ''macros'', PDict [(KStr ''1'', PStr ''x'')])])
     = Inr (JObj [(''macros'', JObj [(''1'', JStr ''x'')])]) \<and>
   loads (JObj [(''macros'', JObj [(''1'', JStr ''x'')])])
     = Inr (PDict [(KStr ''macros'', PDict [(KInt 1, PStr ''x'')])]) \<and>
   loads (JObj [(''macros'', JObj [(''1'', JStr ''x'')])])
     \<noteq> Inr (PDict [(KStr ''macros'', PDict [(KStr ''1'', PStr ''x'')])])"
  by code_simp

text \<open>
  C6, amended: take a GlobalStore restricted to allow-listed names whose values are
  built only from \<^verbatim>\<open>None\<close>, booleans, integers, strings, lists and dictionaries (no
  tuple, no other object), every dictionary at every depth being keyed only by
  non-negative integers and by strings \<^verbatim>\<open>str.isdigit\<close> rejects, and whose \<^verbatim>\<open>history\<close>, if
  it has one, is a dictionary keyed by integers. Then \<^verbatim>\<open>save_session\<close> writes a document
  that decodes to an equal store, and \<^verbatim>\<open>load_session\<close> in a new process raises nothing,
  prints no trace and leaves every name but \<^verbatim>\<open>history\<close> in the GlobalStore with its
  value and every history entry in the history storage under its integer.
\<close>

theorem round_trip_stable:
  assumes "stable (PDict (session w))"
    and "fst ` set (session w) \<subseteq> set accept_keys"
    and "history_ints (session w)"
    and "disk w \<noteq> Denied"
  shows "\<exists>j. save_session w = (None, w\<lparr>disk := Stored (Document j), writes := Suc (writes w)\<rparr>) \<and>
             loads j = Inr (PDict (session w)) \<and>
             fst (load_session (fresh\<lparr>disk := Stored (Document j)\<rparr>)) = None \<and>
             traces (snd (load_session (fresh\<lparr>disk := Stored (Document j)\<rparr>))) = [] \<and>
             spec_reload (session w) (snd (load_session (fresh\<lparr>disk := Stored (Document j)\<rparr>)))"
proof -
  let ?store = "session w"
  from round_trip(1) [OF assms(1)] obtain j where
    j: "dumps (PDict ?store) = Inr j" "loads j = Inr (PDict ?store)" by blast
  let ?w0 = "fresh\<lparr>disk := Stored (Document j)\<rparr>"
  from assms(1) have dist: "distinct (map fst ?store)" and st: "stable_items ?store" by simp_all
  from load_items_spec [OF dist history_ints_indexed [OF assms(3)], of ?w0] obtain w' where
    w': "load_items ?store ?w0 = (None, w')"
      "map_of (session w') = store_after ?store (session ?w0)"
      "map_of (storage w') = history_after ?store (storage ?w0)"
      "traces w' = traces ?w0"
    by blast
  have ls: "load_session ?w0 = (None, w')"
  proof (cases "?store = []")
    case True
    with w' have "w' = ?w0" by simp
    with True j show ?thesis by (simp add: load_session_def load_body_def truthy_def)
  next
    case False
    with j w' show ?thesis by (simp add: load_session_def load_body_def truthy_def)
  qed
  have sess: "map_of (session w') k = (if k = KStr ''history'' then None else map_of ?store k)" for k
  proof (cases "k \<in> set copied_names")
    case True
    with history_not_copied have "k \<noteq> KStr ''history''" by auto
    with True show ?thesis by (simp add: w' store_after_def fresh_def split: option.splits)
  next
    case False
    show ?thesis
    proof (cases "k = KStr ''history''")
      case True
      with False show ?thesis by (simp add: w' store_after_def fresh_def)
    next
      case nh: False
      with False have "k \<notin> set accept_keys" by (simp add: in_accept_keys)
      with assms(2) have "map_of ?store k = None" by (auto simp: map_of_eq_None_iff)
      with False nh show ?thesis by (simp add: w' store_after_def fresh_def)
    qed
  qed
  have hist: "(case map_of ?store (KStr ''history'') of
         None \<Rightarrow> storage w' = []
       | Some v \<Rightarrow> (case v of PDict h \<Rightarrow> (\<forall>i. map_of (storage w') i = map_of h (KInt i)) | _ \<Rightarrow> False))"
  proof (cases "map_of ?store (KStr ''history'')")
    case None
    then have "map_of (storage w') = Map.empty" by (simp add: w' history_after_def fresh_def)
    then have "storage w' = []" by (simp only: map_of_eq_empty_iff)
    with None show ?thesis by simp
  next
    case (Some v)
    with assms(3) obtain h where v: "v = PDict h"
      and ints: "list_all (\<lambda>(k, x). case k of KInt i \<Rightarrow> True | KStr s \<Rightarrow> False) h"
      by (auto simp: history_ints_def split: pyval.splits)
    from Some have "(KStr ''history'', v) \<in> set ?store" by (rule map_of_SomeD)
    from stable_items_keys [OF st this] v have "distinct (map fst h)" by simp
    from index_entries_ints [OF ints this] Some v show ?thesis
      by (simp add: w' history_after_def)
  qed
  from j assms(4) have save:
    "save_session w = (None, w\<lparr>disk := Stored (Document j), writes := Suc (writes w)\<rparr>)"
    by (simp add: save_session_def split: durable.splits)
  from sess hist have sr: "spec_reload ?store w'" by (simp add: spec_reload_def)
  from w'(4) have tr: "traces w' = []" by (simp add: fresh_def)
  from save j(2) ls tr sr show ?thesis by (intro exI [of _ j]) simp
qed

theorem round_trip_stable_witness:
  "stable (PDict store_example) \<and> fst ` set store_example \<subseteq> set accept_keys \<and>
   history_ints store_example \<and>
   save_session (fresh\<lparr>session := store_example\<rparr>)
     = (None, fresh\<lparr>session := store_example, disk := Stored (Document document_example),
                     writes := 1\<rparr>) \<and>
   loads document_example = Inr (PDict store_example) \<and>
   load_session (fresh\<lparr>disk := Stored (Document document_example)\<rparr>)
     = (None, fresh\<lparr>session := [(KStr ''macros'', PDict [(KStr ''a'', PList [PStr ''dw'', PStr ''j''])]),
                                 (KStr ''last_used_register_name'', PStr ''a'')],
                     storage := [(1, PDict [(KStr ''items'', PList [PStr ''s/a/b''])]),
                                 (2, PDict [])],
                     disk := Stored (Document document_example)\<rparr>)"
proof -
  let ?w = "fresh\<lparr>session := store_example\<rparr>"
  have a: "stable (PDict (session ?w))" by (simp add: fresh_def) code_simp
  have b: "fst ` set (session ?w) \<subseteq> set accept_keys"
    by (simp add: fresh_def store_example_def accept_keys_def)
  have c: "history_ints (session ?w)" by (simp add: fresh_def) code_simp
  have d: "disk ?w \<noteq> Denied" by (simp add: fresh_def)
  have e: "save_session ?w
     = (None, fresh\<lparr>session := store_example, disk := Stored (Document document_example),
                     writes := 1\<rparr>)"
    by code_simp
  have f: "loads document_example = Inr (PDict store_example)" by code_simp
  have g: "load_session (fresh\<lparr>disk := Stored (Document document_example)\<rparr>)
     = (None, fresh\<lparr>session := [(KStr ''macros'', PDict [(KStr ''a'', PList [PStr ''dw'', PStr ''j''])]),
                                 (KStr ''last_used_register_name'', PStr ''a'')],
                     storage := [(1, PDict [(KStr ''items'', PList [PStr ''s/a/b''])]),
                                 (2, PDict [])],
                     disk := Stored (Document document_example)\<rparr>)"
    by code_simp
  from round_trip_stable [OF a b c d] a b c e f g show ?thesis
    by (simp add: fresh_def)
qed

subsection \<open>The object hook\<close>

text \<open>
  On a plain document the decoder never raises and computes what the specification
  describes, at every depth.
\<close>

lemma promote_pairs_keys: "map fst (promote_pairs ms) = map fst ms"
  by (induction ms) auto

lemma plain_pairs_keys: "plain_pairs ms \<Longrightarrow> \<forall>k \<in> fst ` set ms. isdigit k = decimal_string k"
proof (induction ms)
  case Nil
  show ?case by simp
next
  case (Cons p ms)
  obtain s j where p: "p = (s, j)" by (cases p)
  from Cons show ?case by (simp add: p)
qed

lemma dict_of_pairs_keys_foldl:
  "fst ` set (foldl (\<lambda>d (k, v). AList.update (KStr k) v d) acc ps)
     = fst ` set acc \<union> KStr ` fst ` set ps"
proof (induction ps arbitrary: acc)
  case Nil
  show ?case by simp
next
  case (Cons p ps)
  obtain s v where p: "p = (s, v)" by (cases p)
  show ?case by (simp add: p Cons.IH dom_update)
qed

lemma dict_of_pairs_keys: "fst ` set (dict_of_pairs ps) = KStr ` fst ` set ps"
  by (simp add: dict_of_pairs_def dict_of_pairs_keys_foldl)

lemma str_key_to_int_promote:
  "\<forall>k \<in> fst ` set d. \<exists>s. k = KStr s \<and> isdigit s = decimal_string s \<Longrightarrow>
   str_key_to_int d acc = Inr (foldl (\<lambda>acc (k, v). AList.update (promote_key k) v acc) acc d)"
proof (induction d arbitrary: acc)
  case Nil
  show ?case by simp
next
  case (Cons a d)
  obtain k v where a: "a = (k, v)" by (cases a)
  from Cons.prems a obtain s where s: "k = KStr s" "isdigit s = decimal_string s" by auto
  from Cons.prems have rest: "\<forall>k \<in> fst ` set d. \<exists>s. k = KStr s \<and> isdigit s = decimal_string s"
    by simp
  show ?case
  proof (cases "decimal_string s")
    case True
    then have "py_int s = Inr (int (digits_val s))"
      by (simp add: decimal_string_def py_int_decimal)
    with True s Cons.IH [OF rest] show ?thesis by (simp add: a promote_key_def)
  next
    case False
    with s Cons.IH [OF rest] show ?thesis by (simp add: a promote_key_def)
  qed
qed

lemma loads_promote:
  "plain j \<Longrightarrow> loads j = Inr (promote j)"
  "plain_list js \<Longrightarrow> loads_list js = Inr (promote_list js)"
  "plain_pairs ms \<Longrightarrow> loads_pairs ms = Inr (promote_pairs ms)"
proof (induction j and js and ms rule: loads_loads_list_loads_pairs.induct)
  case (6 ms)
  then have ps: "loads_pairs ms = Inr (promote_pairs ms)" by simp
  have "\<forall>k \<in> fst ` set (dict_of_pairs (promote_pairs ms)). \<exists>s. k = KStr s \<and> isdigit s = decimal_string s"
  proof
    fix k assume "k \<in> fst ` set (dict_of_pairs (promote_pairs ms))"
    then obtain s where "k = KStr s" "s \<in> fst ` set (promote_pairs ms)"
      by (auto simp: dict_of_pairs_keys)
    moreover have "fst ` set (promote_pairs ms) = fst ` set ms"
      using promote_pairs_keys [of ms] by (metis set_map)
    ultimately show "\<exists>s. k = KStr s \<and> isdigit s = decimal_string s"
      using plain_pairs_keys [of ms] 6 by auto
  qed
  from str_key_to_int_promote [OF this, of "[]"] ps show ?case
    by (simp add: promote_dict_def)
qed auto

text \<open>The example of the specification: the digit key is promoted, the other is kept.\<close>

lemma loads_example:
  "loads (JObj [(''history'', JObj [(''3'', JStr ''x''), (''foo'', JStr ''y'')])])
     = Inr (PDict [(KStr ''history'', PDict [(KInt 3, PStr ''x''), (KStr ''foo'', PStr ''y'')])])"
  by code_simp

text \<open>
  C4 fails on a document that is not plain. \<^verbatim>\<open>str.isdigit\<close> accepts the superscript two
  (code point 178), which is no decimal digit, and \<^verbatim>\<open>int\<close> rejects it: the hook raises
  ValueError instead of passing the key through, the whole decode fails, and
  \<^verbatim>\<open>load_session\<close> prints the trace and loads nothing.
\<close>

theorem hook_superscript_key:
  "isdigit [CHR 0xB2] \<and> \<not> is_decimal (CHR 0xB2) \<and> py_int [CHR 0xB2] = Inl ValueError \<and>
   loads (JObj [(''macros'', JObj [([CHR 0xB2], JStr ''x'')])]) = Inl ValueError \<and>
   load_session (fresh\<lparr>disk := Stored (Document (JObj [(''macros'', JObj [([CHR 0xB2], JStr ''x'')])]))\<rparr>)
     = (None, fresh\<lparr>disk := Stored (Document (JObj [(''macros'', JObj [([CHR 0xB2], JStr ''x'')])])),
                    traces := [ValueError]\<rparr>)"
  by code_simp


text \<open>
  C10: the promotion of digit keys is not injective. The keys \<^verbatim>\<open>"01"\<close> and \<^verbatim>\<open>"1"\<close> of one
  object differ, both denote 1, and the decoded dictionary has the single key 1 with the
  later value; the value of \<^verbatim>\<open>"01"\<close> is gone.
\<close>

theorem hook_collision:
  "''01'' \<noteq> ''1'' \<and> py_int ''01'' = Inr 1 \<and> py_int ''1'' = Inr 1 \<and>
   loads (JObj [(''01'', JStr ''a''), (''1'', JStr ''b'')]) = Inr (PDict [(KInt 1, PStr ''b'')])"
  by code_simp

end
